theory Spec2Isabelle
  imports Main "HOL-Library.AList" "HOL-Library.Multiset"
begin

section \<open>Android: \<open>SimpleRequester\<close>\<close>

subsection \<open>Data\<close>

text \<open>
  The enum \<open>PermissionsStatus\<close>, the data class \<open>PermissionsResponse\<close> and the constants
  of its companion object are imported by \<open>SimpleRequester.kt\<close> and declared outside the
  sources at hand.
\<close>

text \<open>
  Modelled from the spec: the enum \<open>PermissionsStatus\<close>, missing from the sources, with
  the three statuses of the spec.
\<close>

datatype PermissionsStatus = GRANTED | UNDETERMINED | DENIED

text \<open>
  Modelled from the spec: the property \<open>status\<close> of the enum, missing from the sources;
  the strings are those of the \<open>PermissionsStatus\<close> table of the scanner module.
\<close>

fun statusString :: "PermissionsStatus \<Rightarrow> string" where
  "statusString GRANTED = ''granted''"
| "statusString UNDETERMINED = ''undetermined''"
| "statusString DENIED = ''denied''"

text \<open>
  Modelled from the spec: the data class \<open>PermissionsResponse\<close>, missing from the sources,
  with the two fields \<open>parseAndroidPermissions\<close> reads.
\<close>

record PermissionsResponse =
  status :: PermissionsStatus
  canAskAgain :: bool

text \<open>
  Modelled from the spec: the keys and the constant of the companion object, missing from
  the sources; they are the field names of the spec's response and its \<open>"never"\<close>.
\<close>

definition STATUS_KEY :: string where
  "STATUS_KEY = ''status''"

definition EXPIRES_KEY :: string where
  "EXPIRES_KEY = ''expires''"

definition CAN_ASK_AGAIN_KEY :: string where
  "CAN_ASK_AGAIN_KEY = ''canAskAgain''"

definition PERMISSION_EXPIRES_NEVER :: string where
  "PERMISSION_EXPIRES_NEVER = ''never''"

text \<open>
  A \<open>Bundle\<close> is a keyed container; it is kept as the list of its entries, a \<open>put\<close>
  replacing the value of a key already there. The argument of
  \<open>parseAndroidPermissions\<close> is a Kotlin \<open>Map\<close>, kept as the list of its entries in
  iteration order and read by key only; a well-formed \<open>Map\<close> has no key twice.
\<close>

datatype bundle_value = StringValue string | BooleanValue bool

type_synonym Bundle = "(string \<times> bundle_value) list"

type_synonym response_map = "(string \<times> PermissionsResponse) list"

definition putString :: "string \<Rightarrow> string \<Rightarrow> Bundle \<Rightarrow> Bundle" where
  "putString k v b = AList.update k (StringValue v) b"

definition putBoolean :: "string \<Rightarrow> bool \<Rightarrow> Bundle \<Rightarrow> Bundle" where
  "putBoolean k v b = AList.update k (BooleanValue v) b"

subsection \<open>Operations\<close>

text \<open>
  \<open>Map.getValue\<close> throws \<open>NoSuchElementException\<close> for a key the map does not hold (the
  map is one without an implicit default).
\<close>

datatype error = NoSuchElementException string

definition getValue :: "response_map \<Rightarrow> string \<Rightarrow> error + PermissionsResponse" where
  "getValue m k = (case map_of m k of None \<Rightarrow> Inl (NoSuchElementException k) | Some v \<Rightarrow> Inr v)"

text \<open>
  \<open>Iterable.all\<close> walks the list from the left, stops with \<open>false\<close> at the first element
  that fails the predicate, and lets an exception of the predicate through.
\<close>

fun allK :: "('a \<Rightarrow> error + bool) \<Rightarrow> 'a list \<Rightarrow> error + bool" where
  "allK predicate [] = Inr True"
| "allK predicate (element # rest) =
     (case predicate element of
        Inl e \<Rightarrow> Inl e
      | Inr holds \<Rightarrow> if holds then allK predicate rest else Inr False)"

text \<open>The lambdas \<open>{ permissionsResponse.getValue(it).f }\<close> of the three scans.\<close>

definition valueSatisfies ::
  "response_map \<Rightarrow> (PermissionsResponse \<Rightarrow> bool) \<Rightarrow> string \<Rightarrow> error + bool" where
  "valueSatisfies permissionsResponse f it =
     (case getValue permissionsResponse it of Inl e \<Rightarrow> Inl e | Inr r \<Rightarrow> Inr (f r))"

text \<open>The \<open>when\<close> expression of lines 23 to 27: its branches are tried in order.\<close>

definition combinedStatus :: "string list \<Rightarrow> response_map \<Rightarrow> error + PermissionsStatus" where
  "combinedStatus permission permissionsResponse =
     (case allK (valueSatisfies permissionsResponse (\<lambda>r. status r = GRANTED)) permission of
        Inl e \<Rightarrow> Inl e
      | Inr allGranted \<Rightarrow>
          if allGranted then Inr GRANTED
          else (case allK (valueSatisfies permissionsResponse (\<lambda>r. status r = DENIED)) permission of
                  Inl e \<Rightarrow> Inl e
                | Inr allDenied \<Rightarrow> if allDenied then Inr DENIED else Inr UNDETERMINED))"

text \<open>
  \<open>parseAndroidPermissions\<close> of a \<open>SimpleRequester\<close> built from the permission names
  \<open>permission\<close> (which \<open>getAndroidPermissions\<close> returns as they are): the three \<open>put\<close>
  calls run in order on a fresh \<open>Bundle\<close>, and an exception ends the call.
\<close>

definition parseAndroidPermissions :: "string list \<Rightarrow> response_map \<Rightarrow> error + Bundle" where
  "parseAndroidPermissions permission permissionsResponse =
     (case combinedStatus permission permissionsResponse of
        Inl e \<Rightarrow> Inl e
      | Inr st \<Rightarrow>
          (let b1 = putString STATUS_KEY (statusString st) [];
               b2 = putString EXPIRES_KEY PERMISSION_EXPIRES_NEVER b1
           in case allK (valueSatisfies permissionsResponse canAskAgain) permission of
                Inl e \<Rightarrow> Inl e
              | Inr ask \<Rightarrow> Inr (putBoolean CAN_ASK_AGAIN_KEY ask b2)))"

text \<open>
  A scan reaches a missing key when a listed permission is absent from the map and every
  permission listed before it is present and passes the scan's test.
\<close>

fun reachesMissing :: "(PermissionsResponse \<Rightarrow> bool) \<Rightarrow> string list \<Rightarrow> response_map \<Rightarrow> bool" where
  "reachesMissing f [] m = False"
| "reachesMissing f (p # ps) m =
     (case map_of m p of None \<Rightarrow> True | Some r \<Rightarrow> f r \<and> reachesMissing f ps m)"

text \<open>Two names of \<open>Manifest.permission\<close>, for the examples.\<close>

definition CAMERA :: string where
  "CAMERA = ''android.permission.CAMERA''"

definition RECORD_AUDIO :: string where
  "RECORD_AUDIO = ''android.permission.RECORD_AUDIO''"

section \<open>iOS: \<open>EXCameraPermissionRequester\<close>\<close>

subsection \<open>Data\<close>

datatype AVAuthorizationStatus =
    AVAuthorizationStatusNotDetermined
  | AVAuthorizationStatusRestricted
  | AVAuthorizationStatusDenied
  | AVAuthorizationStatusAuthorized

datatype AVMediaType = AVMediaTypeVideo | AVMediaTypeAudio

text \<open>
  Modelled from the spec: the enum \<open>EXPermissionStatus\<close> of \<open>EXPermissions\<close>, missing from
  the sources, with the three statuses of the spec.
\<close>

datatype EXPermissionStatus =
    EXPermissionStatusDenied
  | EXPermissionStatusGranted
  | EXPermissionStatusUndetermined

text \<open>
  Modelled from the spec: the class method \<open>permissionStringForStatus:\<close> of
  \<open>EXPermissions\<close>, missing from the sources; the strings are those of the
  \<open>PermissionsStatus\<close> table of the scanner module.
\<close>

fun permissionStringForStatus :: "EXPermissionStatus \<Rightarrow> string" where
  "permissionStringForStatus EXPermissionStatusGranted = ''granted''"
| "permissionStringForStatus EXPermissionStatusDenied = ''denied''"
| "permissionStringForStatus EXPermissionStatusUndetermined = ''undetermined''"

text \<open>
  Modelled from the spec: the constant \<open>EXPermissionExpiresNever\<close> of \<open>EXPermissions\<close>,
  missing from the sources; the spec's \<open>"never"\<close>.
\<close>

definition EXPermissionExpiresNever :: string where
  "EXPermissionExpiresNever = ''never''"

type_synonym NSDictionary = "(string \<times> string) list"

text \<open>The requester holds a reference to its delegate, which may be nil.\<close>

type_synonym delegate_ref = nat

record requester =
  delegate :: "delegate_ref option"

text \<open>
  What a call does beyond returning a value is kept as the list of its effects, in order:
  the fatal diagnostic (\<open>UMFatal\<close>), the two primitives of \<open>AVCaptureDevice\<close> (the status
  query and the access request, which is the one that can show the system dialog), the
  call of the promise's \<open>resolve\<close> block with its argument (nil is \<open>None\<close>), and the
  delegate's \<open>permissionRequesterDidFinish:\<close>. The \<open>reject\<close> block is never called.

  Modelled from the spec: \<open>UMFatal\<close> and \<open>UMErrorWithMessage\<close> are macros of \<open>UMCore\<close>,
  missing from the sources; as in the spec, the error is reported as a fatal diagnostic
  and the call goes on to yield the denied status.
\<close>

datatype event =
    UMFatal string
  | AuthorizationStatusForMediaType AVMediaType
  | RequestAccessForMediaType AVMediaType
  | Resolve "NSDictionary option"
  | PermissionRequesterDidFinish delegate_ref

definition missingUsageDescriptionMessage :: string where
  "missingUsageDescriptionMessage =
     ''This app is missing either NSCameraUsageDescription or NSMicrophoneUsageDescription, so audio/video services will fail. Add one of these keys to your bundle's Info.plist.''"

subsection \<open>Operations\<close>

text \<open>The \<open>switch\<close> of lines 23 to 34.\<close>

fun statusForSystemStatus :: "AVAuthorizationStatus \<Rightarrow> EXPermissionStatus" where
  "statusForSystemStatus AVAuthorizationStatusAuthorized = EXPermissionStatusGranted"
| "statusForSystemStatus AVAuthorizationStatusDenied = EXPermissionStatusDenied"
| "statusForSystemStatus AVAuthorizationStatusRestricted = EXPermissionStatusDenied"
| "statusForSystemStatus AVAuthorizationStatusNotDetermined = EXPermissionStatusUndetermined"

text \<open>
  \<open>+permissions\<close>. Its two inputs are what the environment answers: \<open>infoDictionary\<close> is
  the Info.plist of the main bundle, read by \<open>objectForInfoDictionaryKey:\<close>, and
  \<open>videoStatus\<close> is what \<open>authorizationStatusForMediaType:\<close> returns for video when
  it is asked. The result is the effects of the call and the dictionary returned.
\<close>

definition permissions ::
  "(string \<rightharpoonup> string) \<Rightarrow> AVAuthorizationStatus \<Rightarrow> event list \<times> NSDictionary" where
  "permissions infoDictionary videoStatus =
     (let cameraUsageDescription = infoDictionary ''NSCameraUsageDescription'';
          microphoneUsageDescription = infoDictionary ''NSMicrophoneUsageDescription'';
          (effects, systemStatus) =
             (if \<not> (cameraUsageDescription \<noteq> None \<and> microphoneUsageDescription \<noteq> None)
              then ([UMFatal missingUsageDescriptionMessage], AVAuthorizationStatusDenied)
              else ([AuthorizationStatusForMediaType AVMediaTypeVideo], videoStatus))
      in (effects,
          [(''status'', permissionStringForStatus (statusForSystemStatus systemStatus)),
           (''expires'', EXPermissionExpiresNever)]))"

text \<open>
  What the environment decides between the request and the run of the completion block:
  the flag the system passes, the authorization status by then, and the requester the
  weak reference of \<open>UM_WEAKIFY\<close> yields in \<open>UM_STRONGIFY\<close> (nil once the requester has
  been released).
\<close>

record completion =
  granted :: bool
  statusThen :: AVAuthorizationStatus
  strongSelf :: "requester option"

text \<open>
  The completion block of lines 44 to 50. A message to nil returns nil and does nothing,
  so with a nil \<open>self\<close> the block resolves with nil and reads a nil delegate.
\<close>

definition completionHandler :: "(string \<rightharpoonup> string) \<Rightarrow> completion \<Rightarrow> event list" where
  "completionHandler infoDictionary c =
     (case strongSelf c of
        None \<Rightarrow> [Resolve None]
      | Some self \<Rightarrow>
          (let (effects, response) = permissions infoDictionary (statusThen c)
           in effects @ [Resolve (Some response)] @
              (case delegate self of
                 None \<Rightarrow> []
               | Some d \<Rightarrow> [PermissionRequesterDidFinish d])))"

text \<open>
  \<open>requestPermissionsWithResolver:rejecter:\<close>. \<open>videoStatus\<close> is the authorization status
  at the time of the call, which the method does not read; \<open>completion\<close> is \<open>None\<close> when
  the system never runs the completion block. The method asks \<open>AVCaptureDevice\<close> for
  access first, and everything else happens in the completion block.
\<close>

definition requestPermissionsWithResolver ::
  "(string \<rightharpoonup> string) \<Rightarrow> AVAuthorizationStatus \<Rightarrow> completion option \<Rightarrow> event list" where
  "requestPermissionsWithResolver infoDictionary videoStatus completion =
     RequestAccessForMediaType AVMediaTypeVideo #
     (case completion of None \<Rightarrow> [] | Some c \<Rightarrow> completionHandler infoDictionary c)"

fun isRequestAccess :: "event \<Rightarrow> bool" where
  "isRequestAccess (RequestAccessForMediaType _) = True"
| "isRequestAccess _ = False"

fun isDidFinish :: "event \<Rightarrow> bool" where
  "isDidFinish (PermissionRequesterDidFinish _) = True"
| "isDidFinish _ = False"

fun isResolve :: "event \<Rightarrow> bool" where
  "isResolve (Resolve _) = True"
| "isResolve _ = False"


section \<open>The scanner component: \<open>onObjectDetected\<close>\<close>








section \<open>Properties of \<open>parseAndroidPermissions\<close>\<close>

subsection \<open>The three scans\<close>

lemma allK_covered:
  "set ps \<subseteq> fst ` set m \<Longrightarrow>
   allK (valueSatisfies m f) ps = Inr (\<forall>p\<in>set ps. \<exists>r. map_of m p = Some r \<and> f r)"
proof (induction ps)
  case Nil
  then show ?case by simp
next
  case (Cons p ps)
  from Cons.prems have "p \<in> fst ` set m" by simp
  then obtain r where r: "map_of m p = Some r"
    by (metis domD dom_map_of_conv_image_fst)
  with Cons show ?case
    by (simp add: valueSatisfies_def getValue_def)
qed

lemma allK_result:
  "allK (valueSatisfies m f) ps = Inr b \<Longrightarrow>
   b = (\<forall>p\<in>set ps. \<forall>r. map_of m p = Some r \<longrightarrow> f r)"
  by (induction ps arbitrary: b)
     (auto simp: valueSatisfies_def getValue_def split: option.splits if_splits)

lemma allK_True:
  "allK (valueSatisfies m f) ps = Inr True \<Longrightarrow> \<forall>p\<in>set ps. \<exists>r. map_of m p = Some r \<and> f r"
  by (induction ps)
     (auto simp: valueSatisfies_def getValue_def split: option.splits if_splits)

lemma allK_throws:
  "(\<exists>e. allK (valueSatisfies m f) ps = Inl e) = reachesMissing f ps m"
  by (induction ps)
     (auto simp: valueSatisfies_def getValue_def split: option.splits if_splits)

lemma reachesMissing_missing:
  "reachesMissing f ps m \<Longrightarrow> \<exists>p\<in>set ps. map_of m p = None"
  by (induction ps) (auto split: option.splits)

lemma combinedStatus_covered:
  assumes "set ps \<subseteq> fst ` set m"
  shows "combinedStatus ps m =
     Inr (if \<forall>p\<in>set ps. \<exists>r. map_of m p = Some r \<and> status r = GRANTED then GRANTED
          else if \<forall>p\<in>set ps. \<exists>r. map_of m p = Some r \<and> status r = DENIED then DENIED
          else UNDETERMINED)"
  unfolding combinedStatus_def using assms by (simp add: allK_covered)

lemma parse_covered:
  assumes "set ps \<subseteq> fst ` set m"
  shows "parseAndroidPermissions ps m =
     Inr [(STATUS_KEY, StringValue (statusString
            (if \<forall>p\<in>set ps. \<exists>r. map_of m p = Some r \<and> status r = GRANTED then GRANTED
             else if \<forall>p\<in>set ps. \<exists>r. map_of m p = Some r \<and> status r = DENIED then DENIED
             else UNDETERMINED))),
          (EXPIRES_KEY, StringValue PERMISSION_EXPIRES_NEVER),
          (CAN_ASK_AGAIN_KEY, BooleanValue (\<forall>p\<in>set ps. \<exists>r. map_of m p = Some r \<and> canAskAgain r))]"
  unfolding parseAndroidPermissions_def combinedStatus_covered[OF assms]
  using assms
  by (simp add: allK_covered putString_def putBoolean_def STATUS_KEY_def EXPIRES_KEY_def
      CAN_ASK_AGAIN_KEY_def)

lemma combinedStatus_throws:
  "(\<exists>e. combinedStatus ps m = Inl e) =
   (reachesMissing (\<lambda>r. status r = GRANTED) ps m \<or> reachesMissing (\<lambda>r. status r = DENIED) ps m)"
proof -
  let ?g = "allK (valueSatisfies m (\<lambda>r. status r = GRANTED)) ps"
  let ?d = "allK (valueSatisfies m (\<lambda>r. status r = DENIED)) ps"
  show ?thesis
  proof (cases ?g)
    case (Inl e)
    then have "reachesMissing (\<lambda>r. status r = GRANTED) ps m"
      using allK_throws[of m "\<lambda>r. status r = GRANTED" ps] by auto
    with Inl show ?thesis by (simp add: combinedStatus_def)
  next
    case (Inr g)
    then have ng: "\<not> reachesMissing (\<lambda>r. status r = GRANTED) ps m"
      using allK_throws[of m "\<lambda>r. status r = GRANTED" ps] by auto
    show ?thesis
    proof (cases g)
      case True
      with Inr have "allK (valueSatisfies m (\<lambda>r. status r = GRANTED)) ps = Inr True" by simp
      then have "\<forall>p\<in>set ps. \<exists>r. map_of m p = Some r \<and> status r = GRANTED"
        by (rule allK_True)
      then have "\<not> reachesMissing (\<lambda>r. status r = DENIED) ps m"
        using reachesMissing_missing by fastforce
      with Inr True ng show ?thesis by (simp add: combinedStatus_def)
    next
      case False
      with Inr ng show ?thesis
        using allK_throws[of m "\<lambda>r. status r = DENIED" ps]
        by (cases ?d) (auto simp: combinedStatus_def)
    qed
  qed
qed

lemma parse_throws:
  "(\<exists>e. parseAndroidPermissions ps m = Inl e) =
   (reachesMissing (\<lambda>r. status r = GRANTED) ps m \<or> reachesMissing (\<lambda>r. status r = DENIED) ps m
    \<or> reachesMissing canAskAgain ps m)"
proof (cases "combinedStatus ps m")
  case (Inl e)
  then show ?thesis using combinedStatus_throws[of ps m]
    by (auto simp: parseAndroidPermissions_def)
next
  case (Inr st)
  then have "\<not> (reachesMissing (\<lambda>r. status r = GRANTED) ps m \<or> reachesMissing (\<lambda>r. status r = DENIED) ps m)"
    using combinedStatus_throws[of ps m] by auto
  with Inr show ?thesis
    using allK_throws[of m canAskAgain ps]
    by (cases "allK (valueSatisfies m canAskAgain) ps") (auto simp: parseAndroidPermissions_def Let_def)
qed

lemma allK_throws_key:
  "allK (valueSatisfies m f) ps = Inl e \<Longrightarrow>
   \<exists>p\<in>set ps. p \<notin> fst ` set m \<and> e = NoSuchElementException p"
  by (induction ps)
     (auto simp: valueSatisfies_def getValue_def map_of_eq_None_iff split: option.splits if_splits)

lemma parse_throws_key:
  assumes "parseAndroidPermissions ps m = Inl e"
  shows "\<exists>p\<in>set ps. p \<notin> fst ` set m \<and> e = NoSuchElementException p"
  using assms
  by (auto simp: parseAndroidPermissions_def combinedStatus_def Let_def
      split: sum.splits if_splits dest: allK_throws_key)

lemma parse_result:
  assumes "parseAndroidPermissions ps m = Inr b"
  shows "\<exists>st. combinedStatus ps m = Inr st \<and>
     b = [(STATUS_KEY, StringValue (statusString st)),
          (EXPIRES_KEY, StringValue PERMISSION_EXPIRES_NEVER),
          (CAN_ASK_AGAIN_KEY, BooleanValue (\<forall>p\<in>set ps. \<forall>r. map_of m p = Some r \<longrightarrow> canAskAgain r))]"
  using assms
  by (auto simp: parseAndroidPermissions_def Let_def putString_def putBoolean_def STATUS_KEY_def
      EXPIRES_KEY_def CAN_ASK_AGAIN_KEY_def split: sum.splits dest: allK_result)

lemma parse_map_of_cong:
  assumes "map_of m = map_of m'"
  shows "parseAndroidPermissions ps m = parseAndroidPermissions ps m'"
proof -
  have "getValue m = getValue m'"
    using assms by (simp add: getValue_def fun_eq_iff)
  then have "valueSatisfies m = valueSatisfies m'"
    by (simp add: valueSatisfies_def fun_eq_iff)
  then show ?thesis
    unfolding parseAndroidPermissions_def combinedStatus_def by (rule ssubst) (rule refl)
qed

lemma permuted_map_of:
  assumes "distinct (map fst xs)" and "mset xs = mset ys"
  shows "map_of xs = map_of ys"
proof -
  from assms(2) have "mset (map fst xs) = mset (map fst ys)"
    by (metis mset_map)
  with assms(1) have "distinct (map fst ys)"
    by (metis mset_eq_imp_distinct_iff)
  moreover from assms(2) have "set xs = set ys"
    by (rule mset_eq_setD)
  ultimately show ?thesis
    using assms(1) by (simp add: map_of_inject_set)
qed

text \<open>The equations that evaluate the examples.\<close>

lemmas android_eval =
  parseAndroidPermissions_def combinedStatus_def valueSatisfies_def getValue_def
  putString_def putBoolean_def STATUS_KEY_def EXPIRES_KEY_def CAN_ASK_AGAIN_KEY_def
  PERMISSION_EXPIRES_NEVER_def CAMERA_def RECORD_AUDIO_def

subsection \<open>The combined status\<close>

text \<open>
  Claim C1. For a requester with at least one permission and a map that holds a response
  for every permission of the requester, \<open>parseAndroidPermissions\<close> returns a bundle
  whose status is \<open>granted\<close> if every constituent status is \<open>GRANTED\<close>, \<open>denied\<close> if
  every constituent status is \<open>DENIED\<close>, and \<open>undetermined\<close> in every other case. The
  constituents are the responses of the permissions the requester lists. The example
  runs the six rows of the table for two permissions.
\<close>

theorem combined_status_rule:
  assumes "permission \<noteq> []"
    and "set permission \<subseteq> fst ` set permissionsResponse"
  shows "\<exists>b. parseAndroidPermissions permission permissionsResponse = Inr b \<and>
     ((\<forall>p\<in>set permission. \<exists>r. map_of permissionsResponse p = Some r \<and> status r = GRANTED)
        \<longrightarrow> map_of b STATUS_KEY = Some (StringValue (statusString GRANTED))) \<and>
     ((\<forall>p\<in>set permission. \<exists>r. map_of permissionsResponse p = Some r \<and> status r = DENIED)
        \<longrightarrow> map_of b STATUS_KEY = Some (StringValue (statusString DENIED))) \<and>
     (\<not> (\<forall>p\<in>set permission. \<exists>r. map_of permissionsResponse p = Some r \<and> status r = GRANTED) \<and>
      \<not> (\<forall>p\<in>set permission. \<exists>r. map_of permissionsResponse p = Some r \<and> status r = DENIED)
        \<longrightarrow> map_of b STATUS_KEY = Some (StringValue (statusString UNDETERMINED)))"
proof -
  let ?G = "\<forall>p\<in>set permission. \<exists>r. map_of permissionsResponse p = Some r \<and> status r = GRANTED"
  let ?D = "\<forall>p\<in>set permission. \<exists>r. map_of permissionsResponse p = Some r \<and> status r = DENIED"
  from assms(1) obtain p where p: "p \<in> set permission"
    by (cases permission) auto
  have excl: "\<not> (?G \<and> ?D)"
  proof
    assume "?G \<and> ?D"
    with p obtain r r' where "map_of permissionsResponse p = Some r" "status r = GRANTED"
      "map_of permissionsResponse p = Some r'" "status r' = DENIED"
      by blast
    then show False by simp
  qed
  show ?thesis
    unfolding parse_covered[OF assms(2)] using excl
    by (auto simp: STATUS_KEY_def)
qed

theorem combined_status_rule_witness:
  "parseAndroidPermissions [CAMERA, RECORD_AUDIO]
     [(CAMERA, \<lparr>status = GRANTED, canAskAgain = True\<rparr>), (RECORD_AUDIO, \<lparr>status = GRANTED, canAskAgain = True\<rparr>)] =
     Inr [(''status'', StringValue ''granted''), (''expires'', StringValue ''never''), (''canAskAgain'', BooleanValue True)] \<and>
   parseAndroidPermissions [CAMERA, RECORD_AUDIO]
     [(CAMERA, \<lparr>status = DENIED, canAskAgain = True\<rparr>), (RECORD_AUDIO, \<lparr>status = DENIED, canAskAgain = True\<rparr>)] =
     Inr [(''status'', StringValue ''denied''), (''expires'', StringValue ''never''), (''canAskAgain'', BooleanValue True)] \<and>
   parseAndroidPermissions [CAMERA, RECORD_AUDIO]
     [(CAMERA, \<lparr>status = GRANTED, canAskAgain = True\<rparr>), (RECORD_AUDIO, \<lparr>status = DENIED, canAskAgain = True\<rparr>)] =
     Inr [(''status'', StringValue ''undetermined''), (''expires'', StringValue ''never''), (''canAskAgain'', BooleanValue True)] \<and>
   parseAndroidPermissions [CAMERA, RECORD_AUDIO]
     [(CAMERA, \<lparr>status = GRANTED, canAskAgain = True\<rparr>), (RECORD_AUDIO, \<lparr>status = UNDETERMINED, canAskAgain = True\<rparr>)] =
     Inr [(''status'', StringValue ''undetermined''), (''expires'', StringValue ''never''), (''canAskAgain'', BooleanValue True)] \<and>
   parseAndroidPermissions [CAMERA, RECORD_AUDIO]
     [(CAMERA, \<lparr>status = DENIED, canAskAgain = True\<rparr>), (RECORD_AUDIO, \<lparr>status = UNDETERMINED, canAskAgain = True\<rparr>)] =
     Inr [(''status'', StringValue ''undetermined''), (''expires'', StringValue ''never''), (''canAskAgain'', BooleanValue True)] \<and>
   parseAndroidPermissions [CAMERA, RECORD_AUDIO]
     [(CAMERA, \<lparr>status = UNDETERMINED, canAskAgain = True\<rparr>), (RECORD_AUDIO, \<lparr>status = UNDETERMINED, canAskAgain = True\<rparr>)] =
     Inr [(''status'', StringValue ''undetermined''), (''expires'', StringValue ''never''), (''canAskAgain'', BooleanValue True)]"
  using combined_status_rule [of "[CAMERA, RECORD_AUDIO]"
      "[(CAMERA, \<lparr>status = GRANTED, canAskAgain = True\<rparr>), (RECORD_AUDIO, \<lparr>status = GRANTED, canAskAgain = True\<rparr>)]"]
    combined_status_rule [of "[CAMERA, RECORD_AUDIO]"
      "[(CAMERA, \<lparr>status = DENIED, canAskAgain = True\<rparr>), (RECORD_AUDIO, \<lparr>status = DENIED, canAskAgain = True\<rparr>)]"]
    combined_status_rule [of "[CAMERA, RECORD_AUDIO]"
      "[(CAMERA, \<lparr>status = GRANTED, canAskAgain = True\<rparr>), (RECORD_AUDIO, \<lparr>status = DENIED, canAskAgain = True\<rparr>)]"]
    combined_status_rule [of "[CAMERA, RECORD_AUDIO]"
      "[(CAMERA, \<lparr>status = GRANTED, canAskAgain = True\<rparr>), (RECORD_AUDIO, \<lparr>status = UNDETERMINED, canAskAgain = True\<rparr>)]"]
    combined_status_rule [of "[CAMERA, RECORD_AUDIO]"
      "[(CAMERA, \<lparr>status = DENIED, canAskAgain = True\<rparr>), (RECORD_AUDIO, \<lparr>status = UNDETERMINED, canAskAgain = True\<rparr>)]"]
    combined_status_rule [of "[CAMERA, RECORD_AUDIO]"
      "[(CAMERA, \<lparr>status = UNDETERMINED, canAskAgain = True\<rparr>), (RECORD_AUDIO, \<lparr>status = UNDETERMINED, canAskAgain = True\<rparr>)]"]
  by (simp add: android_eval)

subsection \<open>The flag \<open>canAskAgain\<close>\<close>

text \<open>
  Claim C6. In every bundle \<open>parseAndroidPermissions\<close> returns, the flag \<open>canAskAgain\<close>
  is the conjunction of the \<open>canAskAgain\<close> flags of the responses the map holds for the
  permissions of the requester.
\<close>

theorem can_ask_again_conjunction:
  assumes "parseAndroidPermissions permission permissionsResponse = Inr b"
  shows "map_of b CAN_ASK_AGAIN_KEY =
     Some (BooleanValue (\<forall>p\<in>set permission. \<forall>r. map_of permissionsResponse p = Some r \<longrightarrow> canAskAgain r))"
  using parse_result[OF assms]
  by (auto simp: STATUS_KEY_def EXPIRES_KEY_def CAN_ASK_AGAIN_KEY_def)

theorem can_ask_again_conjunction_witness:
  "parseAndroidPermissions [CAMERA, RECORD_AUDIO]
     [(CAMERA, \<lparr>status = GRANTED, canAskAgain = True\<rparr>),
      (RECORD_AUDIO, \<lparr>status = GRANTED, canAskAgain = False\<rparr>)] =
     Inr [(''status'', StringValue ''granted''), (''expires'', StringValue ''never''),
          (''canAskAgain'', BooleanValue False)] \<and>
   map_of [(''status'', StringValue ''granted''), (''expires'', StringValue ''never''),
           (''canAskAgain'', BooleanValue False)] CAN_ASK_AGAIN_KEY =
     Some (BooleanValue False)"
proof -
  have r: "parseAndroidPermissions [CAMERA, RECORD_AUDIO]
     [(CAMERA, \<lparr>status = GRANTED, canAskAgain = True\<rparr>),
      (RECORD_AUDIO, \<lparr>status = GRANTED, canAskAgain = False\<rparr>)] =
     Inr [(''status'', StringValue ''granted''), (''expires'', StringValue ''never''),
          (''canAskAgain'', BooleanValue False)]"
    by (simp add: android_eval)
  from can_ask_again_conjunction [OF r] r show ?thesis
    by (simp add: android_eval)
qed

subsection \<open>The order of the entries\<close>

text \<open>
  Claim C7. The combination does not depend on order. Two maps that are permutations of
  one another (the same entries, no key twice) give the same result, be it a bundle or
  the exception; and for a map that holds every permission of the requester, listing the
  permissions in another order gives the same bundle.
\<close>

theorem combine_order_independent:
  "(distinct (map fst xs) \<and> mset xs = mset ys \<longrightarrow>
      parseAndroidPermissions permission xs = parseAndroidPermissions permission ys) \<and>
   (set permission \<subseteq> fst ` set xs \<and> mset permission = mset permission' \<longrightarrow>
      parseAndroidPermissions permission xs = parseAndroidPermissions permission' xs)"
proof (intro conjI impI)
  assume "distinct (map fst xs) \<and> mset xs = mset ys"
  then have "map_of xs = map_of ys" by (simp add: permuted_map_of)
  then show "parseAndroidPermissions permission xs = parseAndroidPermissions permission ys"
    by (rule parse_map_of_cong)
next
  assume a: "set permission \<subseteq> fst ` set xs \<and> mset permission = mset permission'"
  then have s: "set permission = set permission'" by (metis mset_eq_setD)
  with a have "set permission' \<subseteq> fst ` set xs" by simp
  with a s show "parseAndroidPermissions permission xs = parseAndroidPermissions permission' xs"
    by (simp add: parse_covered)
qed

theorem combine_order_independent_witness:
  "parseAndroidPermissions [CAMERA, RECORD_AUDIO]
     [(CAMERA, \<lparr>status = GRANTED, canAskAgain = True\<rparr>),
      (RECORD_AUDIO, \<lparr>status = DENIED, canAskAgain = False\<rparr>)] =
   parseAndroidPermissions [CAMERA, RECORD_AUDIO]
     [(RECORD_AUDIO, \<lparr>status = DENIED, canAskAgain = False\<rparr>),
      (CAMERA, \<lparr>status = GRANTED, canAskAgain = True\<rparr>)] \<and>
   parseAndroidPermissions [CAMERA, RECORD_AUDIO]
     [(CAMERA, \<lparr>status = GRANTED, canAskAgain = True\<rparr>),
      (RECORD_AUDIO, \<lparr>status = DENIED, canAskAgain = False\<rparr>)] =
   parseAndroidPermissions [RECORD_AUDIO, CAMERA]
     [(CAMERA, \<lparr>status = GRANTED, canAskAgain = True\<rparr>),
      (RECORD_AUDIO, \<lparr>status = DENIED, canAskAgain = False\<rparr>)]"
  using combine_order_independent [of
      "[(CAMERA, \<lparr>status = GRANTED, canAskAgain = True\<rparr>),
        (RECORD_AUDIO, \<lparr>status = DENIED, canAskAgain = False\<rparr>)]"
      "[(RECORD_AUDIO, \<lparr>status = DENIED, canAskAgain = False\<rparr>),
        (CAMERA, \<lparr>status = GRANTED, canAskAgain = True\<rparr>)]"
      "[CAMERA, RECORD_AUDIO]" "[RECORD_AUDIO, CAMERA]"]
  by (simp add: android_eval)

subsection \<open>Missing keys\<close>

text \<open>
  Claim C8 says that \<open>parseAndroidPermissions\<close> throws for every map that omits a
  permission of the requester. It does not: \<open>all\<close> stops at the first response that fails
  its test, so a permission listed after such a response is never looked up. Here the
  map omits \<open>RECORD_AUDIO\<close>, the response of \<open>CAMERA\<close> stops all three scans, and a bundle
  is returned.
\<close>

theorem parse_omitted_key_counterexample:
  "RECORD_AUDIO \<notin> fst ` set [(CAMERA, \<lparr>status = UNDETERMINED, canAskAgain = False\<rparr>)] \<and>
   parseAndroidPermissions [CAMERA, RECORD_AUDIO]
     [(CAMERA, \<lparr>status = UNDETERMINED, canAskAgain = False\<rparr>)] =
     Inr [(''status'', StringValue ''undetermined''), (''expires'', StringValue ''never''),
          (''canAskAgain'', BooleanValue False)]"
  by (simp add: android_eval)

text \<open>
  Claim C8, amended. \<open>parseAndroidPermissions\<close> throws exactly when one of its three
  scans reaches a missing key: some permission of the requester is absent from the map
  and every permission listed before it is present with, throughout, status \<open>GRANTED\<close>,
  or status \<open>DENIED\<close>, or \<open>canAskAgain\<close> set. The exception is the
  \<open>NoSuchElementException\<close> of a listed permission that the map does not hold. For a map
  that holds every permission of the requester the function returns a bundle.
\<close>

theorem parse_throws_when_scan_reaches_missing:
  "((\<exists>e. parseAndroidPermissions permission m = Inl e) =
      (reachesMissing (\<lambda>r. status r = GRANTED) permission m \<or>
       reachesMissing (\<lambda>r. status r = DENIED) permission m \<or>
       reachesMissing canAskAgain permission m)) \<and>
   (parseAndroidPermissions permission m = Inl e \<longrightarrow>
      (\<exists>p\<in>set permission. p \<notin> fst ` set m \<and> e = NoSuchElementException p)) \<and>
   (set permission \<subseteq> fst ` set m \<longrightarrow> (\<exists>b. parseAndroidPermissions permission m = Inr b))"
  using parse_throws[of permission m] parse_throws_key[of permission m e]
    parse_covered[of permission m]
  by blast

theorem parse_throws_when_scan_reaches_missing_witness:
  "parseAndroidPermissions [CAMERA, RECORD_AUDIO]
     [(CAMERA, \<lparr>status = GRANTED, canAskAgain = True\<rparr>)] =
     Inl (NoSuchElementException RECORD_AUDIO) \<and>
   reachesMissing (\<lambda>r. status r = GRANTED) [CAMERA, RECORD_AUDIO]
     [(CAMERA, \<lparr>status = GRANTED, canAskAgain = True\<rparr>)] \<and>
   (\<exists>b. parseAndroidPermissions [CAMERA, RECORD_AUDIO]
     [(CAMERA, \<lparr>status = GRANTED, canAskAgain = True\<rparr>),
      (RECORD_AUDIO, \<lparr>status = GRANTED, canAskAgain = True\<rparr>)] = Inr b)"
  using parse_throws_when_scan_reaches_missing [of "[CAMERA, RECORD_AUDIO]"
      "[(CAMERA, \<lparr>status = GRANTED, canAskAgain = True\<rparr>)]"
      "NoSuchElementException RECORD_AUDIO"]
    parse_throws_when_scan_reaches_missing [of "[CAMERA, RECORD_AUDIO]"
      "[(CAMERA, \<lparr>status = GRANTED, canAskAgain = True\<rparr>),
        (RECORD_AUDIO, \<lparr>status = GRANTED, canAskAgain = True\<rparr>)]"]
  by (simp add: android_eval)

section \<open>Properties of the camera requester\<close>

subsection \<open>What \<open>+permissions\<close> and the completion block do\<close>

lemma permissions_missing:
  assumes "infoDictionary ''NSCameraUsageDescription'' = None \<or>
           infoDictionary ''NSMicrophoneUsageDescription'' = None"
  shows "permissions infoDictionary videoStatus =
     ([UMFatal missingUsageDescriptionMessage], [(''status'', ''denied''), (''expires'', ''never'')])"
  using assms by (auto simp: permissions_def EXPermissionExpiresNever_def)

lemma permissions_declared:
  assumes "infoDictionary ''NSCameraUsageDescription'' = Some cam"
    and "infoDictionary ''NSMicrophoneUsageDescription'' = Some mic"
  shows "permissions infoDictionary videoStatus =
     ([AuthorizationStatusForMediaType AVMediaTypeVideo],
      [(''status'', permissionStringForStatus (statusForSystemStatus videoStatus)),
       (''expires'', ''never'')])"
  using assms by (simp add: permissions_def EXPermissionExpiresNever_def)

lemma permissions_cases:
  "permissions infoDictionary videoStatus =
     ([UMFatal missingUsageDescriptionMessage], [(''status'', ''denied''), (''expires'', ''never'')]) \<or>
   permissions infoDictionary videoStatus =
     ([AuthorizationStatusForMediaType AVMediaTypeVideo],
      [(''status'', permissionStringForStatus (statusForSystemStatus videoStatus)),
       (''expires'', ''never'')])"
  by (auto simp: permissions_def EXPermissionExpiresNever_def)

lemma permissions_keys:
  "map fst (snd (permissions infoDictionary videoStatus)) = [''status'', ''expires'']"
  using permissions_cases[of infoDictionary videoStatus] by auto

lemma permissions_effects:
  "filter isRequestAccess (fst (permissions infoDictionary videoStatus)) = [] \<and>
   filter isDidFinish (fst (permissions infoDictionary videoStatus)) = [] \<and>
   filter isResolve (fst (permissions infoDictionary videoStatus)) = []"
  using permissions_cases[of infoDictionary videoStatus] by auto

lemma completionHandler_alive:
  assumes "strongSelf c = Some self"
  shows "completionHandler infoDictionary c =
     fst (permissions infoDictionary (statusThen c)) @
     [Resolve (Some (snd (permissions infoDictionary (statusThen c))))] @
     (case delegate self of None \<Rightarrow> [] | Some d \<Rightarrow> [PermissionRequesterDidFinish d])"
  using assms by (simp add: completionHandler_def split: prod.splits)

lemma completionHandler_released:
  assumes "strongSelf c = None"
  shows "completionHandler infoDictionary c = [Resolve None]"
  using assms by (simp add: completionHandler_def)

lemma completionHandler_no_request:
  "filter isRequestAccess (completionHandler infoDictionary c) = []"
proof (cases "strongSelf c")
  case None
  then show ?thesis by (simp add: completionHandler_released)
next
  case (Some self)
  then show ?thesis
    by (simp add: completionHandler_alive permissions_effects split: option.splits)
qed

lemma completionHandler_did_finish:
  "filter isDidFinish (completionHandler infoDictionary c) =
     (case strongSelf c of
        None \<Rightarrow> []
      | Some self \<Rightarrow> (case delegate self of None \<Rightarrow> [] | Some d \<Rightarrow> [PermissionRequesterDidFinish d]))"
proof (cases "strongSelf c")
  case None
  then show ?thesis by (simp add: completionHandler_released)
next
  case (Some self)
  then show ?thesis
    by (simp add: completionHandler_alive permissions_effects split: option.splits)
qed

lemma completionHandler_resolved:
  assumes "Resolve (Some response) \<in> set (completionHandler infoDictionary c)"
  shows "response = snd (permissions infoDictionary (statusThen c))"
proof (cases "strongSelf c")
  case None
  with assms show ?thesis by (simp add: completionHandler_released)
next
  case (Some self)
  have "Resolve (Some response) \<notin> set (fst (permissions infoDictionary (statusThen c)))"
    using permissions_cases[of infoDictionary "statusThen c"] by auto
  with assms Some show ?thesis
    by (auto simp: completionHandler_alive split: option.splits)
qed

lemma permissions_status:
  "\<exists>s. map_of (snd (permissions infoDictionary videoStatus)) ''status'' =
     Some (permissionStringForStatus s)"
proof -
  consider
    (missing) "snd (permissions infoDictionary videoStatus) =
       [(''status'', ''denied''), (''expires'', ''never'')]"
  | (declared) "snd (permissions infoDictionary videoStatus) =
       [(''status'', permissionStringForStatus (statusForSystemStatus videoStatus)),
        (''expires'', ''never'')]"
    using permissions_cases[of infoDictionary videoStatus] by auto
  then show ?thesis
  proof cases
    case missing
    then have "map_of (snd (permissions infoDictionary videoStatus)) ''status'' =
       Some (permissionStringForStatus EXPermissionStatusDenied)"
      by simp
    then show ?thesis by (rule exI)
  next
    case declared
    then have "map_of (snd (permissions infoDictionary videoStatus)) ''status'' =
       Some (permissionStringForStatus (statusForSystemStatus videoStatus))"
      by simp
    then show ?thesis by (rule exI)
  qed
qed

lemma request_resolved:
  assumes "Resolve (Some response) \<in> set (requestPermissionsWithResolver infoDictionary videoStatus completion)"
  shows "\<exists>c. completion = Some c \<and> response = snd (permissions infoDictionary (statusThen c))"
  using assms
  by (auto simp: requestPermissionsWithResolver_def split: option.splits
      dest: completionHandler_resolved)

lemma keys_no_granted:
  assumes "map fst b = ks" and "''granted'' \<notin> set ks"
  shows "map_of b ''granted'' = None"
proof -
  have "fst ` set b = set (map fst b)" by simp
  with assms have "''granted'' \<notin> fst ` set b" by simp
  then show ?thesis by (simp add: map_of_eq_None_iff)
qed

lemma permissions_expires:
  "map_of (snd (permissions infoDictionary videoStatus)) ''expires'' = Some ''never''"
  using permissions_cases[of infoDictionary videoStatus] by auto

lemma completionHandler_resolved_nil:
  assumes "Resolve None \<in> set (completionHandler infoDictionary c)"
  shows "strongSelf c = None"
proof (cases "strongSelf c")
  case None
  then show ?thesis .
next
  case (Some self)
  have "Resolve None \<notin> set (fst (permissions infoDictionary (statusThen c)))"
    using permissions_cases[of infoDictionary "statusThen c"] by auto
  with assms Some show ?thesis
    by (auto simp: completionHandler_alive split: option.splits)
qed

lemma request_resolved_nil:
  assumes "Resolve None \<in> set (requestPermissionsWithResolver infoDictionary videoStatus completion)"
  shows "\<exists>c. completion = Some c \<and> strongSelf c = None"
  using assms
  by (auto simp: requestPermissionsWithResolver_def split: option.splits
      dest: completionHandler_resolved_nil)


lemma request_asks_once:
  "filter isRequestAccess (requestPermissionsWithResolver infoDictionary videoStatus completion) =
     [RequestAccessForMediaType AVMediaTypeVideo]"
  by (simp add: requestPermissionsWithResolver_def completionHandler_no_request
      split: option.splits)


text \<open>The equations that evaluate the examples.\<close>

lemmas ios_eval =
  requestPermissionsWithResolver_def completionHandler_def permissions_def
  EXPermissionExpiresNever_def

subsection \<open>The status mapping\<close>

text \<open>
  Claim C9. With both usage descriptions declared, \<open>+permissions\<close> reports
  \<open>AVAuthorizationStatusAuthorized\<close> as \<open>granted\<close>, \<open>AVAuthorizationStatusDenied\<close> and
  \<open>AVAuthorizationStatusRestricted\<close> as \<open>denied\<close>, and
  \<open>AVAuthorizationStatusNotDetermined\<close> as \<open>undetermined\<close>; the call for the
  restricted state cannot be told from the call for the denied state.
\<close>

theorem camera_status_mapping:
  assumes "infoDictionary ''NSCameraUsageDescription'' = Some cam"
    and "infoDictionary ''NSMicrophoneUsageDescription'' = Some mic"
  shows "snd (permissions infoDictionary AVAuthorizationStatusAuthorized) =
       [(''status'', ''granted''), (''expires'', ''never'')] \<and>
     snd (permissions infoDictionary AVAuthorizationStatusDenied) =
       [(''status'', ''denied''), (''expires'', ''never'')] \<and>
     snd (permissions infoDictionary AVAuthorizationStatusRestricted) =
       [(''status'', ''denied''), (''expires'', ''never'')] \<and>
     snd (permissions infoDictionary AVAuthorizationStatusNotDetermined) =
       [(''status'', ''undetermined''), (''expires'', ''never'')] \<and>
     permissions infoDictionary AVAuthorizationStatusRestricted =
       permissions infoDictionary AVAuthorizationStatusDenied"
  by (simp add: permissions_declared[OF assms])

theorem camera_status_mapping_witness:
  "snd (permissions [''NSCameraUsageDescription'' \<mapsto> ''Scan codes'',
                     ''NSMicrophoneUsageDescription'' \<mapsto> ''Record sound'']
          AVAuthorizationStatusRestricted) =
     [(''status'', ''denied''), (''expires'', ''never'')]"
  using camera_status_mapping [where
      infoDictionary = "[''NSCameraUsageDescription'' \<mapsto> ''Scan codes'',
        ''NSMicrophoneUsageDescription'' \<mapsto> ''Record sound'']"
      and cam = "''Scan codes''" and mic = "''Record sound''"]
  by simp

subsection \<open>Missing usage descriptions\<close>

text \<open>
  Claim C2 says that with a usage description missing the native prompt primitive is not
  invoked. On the request path it is: the method asks \<open>AVCaptureDevice\<close> for access
  before anything else, and the usage descriptions are read in the completion block
  only. Here the bundle declares the camera usage and not the microphone usage.
\<close>

theorem request_without_usage_description_counterexample:
  "requestPermissionsWithResolver [''NSCameraUsageDescription'' \<mapsto> ''Scan codes'']
     AVAuthorizationStatusNotDetermined
     (Some \<lparr>granted = False, statusThen = AVAuthorizationStatusDenied,
            strongSelf = Some \<lparr>delegate = Some 0\<rparr>\<rparr>) =
   [RequestAccessForMediaType AVMediaTypeVideo,
    UMFatal missingUsageDescriptionMessage,
    Resolve (Some [(''status'', ''denied''), (''expires'', ''never'')]),
    PermissionRequesterDidFinish 0]"
  by (simp add: ios_eval)

text \<open>
  Claim C2, amended. When \<open>NSCameraUsageDescription\<close> or
  \<open>NSMicrophoneUsageDescription\<close> is missing, \<open>+permissions\<close> reports the fatal
  diagnostic and returns the status \<open>denied\<close> without calling \<open>AVCaptureDevice\<close>; a
  request whose completion block runs on a live requester has asked for access once,
  then reported the fatal diagnostic and resolved with the status \<open>denied\<close>.
\<close>

theorem missing_usage_description_denied:
  assumes "infoDictionary ''NSCameraUsageDescription'' = None \<or>
           infoDictionary ''NSMicrophoneUsageDescription'' = None"
  shows "permissions infoDictionary videoStatus =
       ([UMFatal missingUsageDescriptionMessage],
        [(''status'', ''denied''), (''expires'', ''never'')]) \<and>
     (strongSelf c = Some self \<longrightarrow>
        requestPermissionsWithResolver infoDictionary videoStatus (Some c) =
          [RequestAccessForMediaType AVMediaTypeVideo,
           UMFatal missingUsageDescriptionMessage,
           Resolve (Some [(''status'', ''denied''), (''expires'', ''never'')])] @
          (case delegate self of None \<Rightarrow> [] | Some d \<Rightarrow> [PermissionRequesterDidFinish d]))"
  using permissions_missing[OF assms]
  by (simp add: requestPermissionsWithResolver_def completionHandler_alive)

theorem missing_usage_description_denied_witness:
  "permissions [''NSMicrophoneUsageDescription'' \<mapsto> ''Record sound'']
       AVAuthorizationStatusAuthorized =
       ([UMFatal missingUsageDescriptionMessage],
        [(''status'', ''denied''), (''expires'', ''never'')]) \<and>
   requestPermissionsWithResolver [''NSMicrophoneUsageDescription'' \<mapsto> ''Record sound'']
       AVAuthorizationStatusAuthorized
       (Some \<lparr>granted = True, statusThen = AVAuthorizationStatusAuthorized,
              strongSelf = Some \<lparr>delegate = None\<rparr>\<rparr>) =
       [RequestAccessForMediaType AVMediaTypeVideo,
        UMFatal missingUsageDescriptionMessage,
        Resolve (Some [(''status'', ''denied''), (''expires'', ''never'')])]"
  using missing_usage_description_denied [where
      infoDictionary = "[''NSMicrophoneUsageDescription'' \<mapsto> ''Record sound'']"
      and videoStatus = AVAuthorizationStatusAuthorized
      and c = "\<lparr>granted = True, statusThen = AVAuthorizationStatusAuthorized,
        strongSelf = Some \<lparr>delegate = None\<rparr>\<rparr>"
      and self = "\<lparr>delegate = None\<rparr>"]
  by simp

subsection \<open>The fields of a response\<close>

text \<open>
  Claim C3 says that every response holds a field \<open>granted\<close> equal to
  \<open>status == GRANTED\<close>. Neither requester writes such a field: the bundle of
  \<open>parseAndroidPermissions\<close> has the keys \<open>status\<close>, \<open>expires\<close> and \<open>canAskAgain\<close>,
  the dictionary of \<open>+permissions\<close> has \<open>status\<close> and \<open>expires\<close>.
\<close>

theorem granted_field_absent_counterexample:
  "parseAndroidPermissions [CAMERA] [(CAMERA, \<lparr>status = GRANTED, canAskAgain = True\<rparr>)] =
     Inr [(''status'', StringValue ''granted''), (''expires'', StringValue ''never''),
          (''canAskAgain'', BooleanValue True)] \<and>
   map_of [(''status'', StringValue ''granted''), (''expires'', StringValue ''never''),
           (''canAskAgain'', BooleanValue True)] ''granted'' = None \<and>
   snd (permissions [''NSCameraUsageDescription'' \<mapsto> ''Scan codes'',
                     ''NSMicrophoneUsageDescription'' \<mapsto> ''Record sound'']
          AVAuthorizationStatusAuthorized) =
     [(''status'', ''granted''), (''expires'', ''never'')] \<and>
   map_of [(''status'', ''granted''), (''expires'', ''never'')] ''granted'' = None"
  by (simp add: android_eval ios_eval)

text \<open>
  Claim C3, amended. Every response of the two requesters, on the query path and on the
  request path, holds \<open>status\<close>, which is one of the three status strings, and
  \<open>expires\<close>, which is \<open>never\<close>, on Android also \<open>canAskAgain\<close>, and no field
  \<open>granted\<close>: whether the permission is granted is read off \<open>status\<close>. A request
  resolves with such a response or, when the requester has been released before the
  completion block runs, with nil, which is no response.
\<close>

theorem responses_carry_status_and_no_granted_field:
  "(parseAndroidPermissions permission permissionsResponse = Inr b \<longrightarrow>
      map fst b = [''status'', ''expires'', ''canAskAgain''] \<and>
      map_of b ''granted'' = None \<and>
      (\<exists>st. map_of b ''status'' = Some (StringValue (statusString st))) \<and>
      map_of b ''expires'' = Some (StringValue ''never'')) \<and>
   map fst (snd (permissions infoDictionary videoStatus)) = [''status'', ''expires''] \<and>
   map_of (snd (permissions infoDictionary videoStatus)) ''granted'' = None \<and>
   (\<exists>s. map_of (snd (permissions infoDictionary videoStatus)) ''status'' =
      Some (permissionStringForStatus s)) \<and>
   map_of (snd (permissions infoDictionary videoStatus)) ''expires'' = Some ''never'' \<and>
   (Resolve resolved \<in>
      set (requestPermissionsWithResolver infoDictionary videoStatus completion) \<longrightarrow>
      (resolved = None \<and> (\<exists>c. completion = Some c \<and> strongSelf c = None)) \<or>
      (\<exists>response. resolved = Some response \<and>
         map fst response = [''status'', ''expires''] \<and>
         map_of response ''granted'' = None \<and>
         (\<exists>s. map_of response ''status'' = Some (permissionStringForStatus s)) \<and>
         map_of response ''expires'' = Some ''never''))"
proof (intro conjI impI)
  assume r: "parseAndroidPermissions permission permissionsResponse = Inr b"
  from parse_result[OF r] obtain st where
    b: "b = [(STATUS_KEY, StringValue (statusString st)),
          (EXPIRES_KEY, StringValue PERMISSION_EXPIRES_NEVER),
          (CAN_ASK_AGAIN_KEY, BooleanValue (\<forall>p\<in>set permission. \<forall>r. map_of permissionsResponse p = Some r \<longrightarrow> canAskAgain r))]"
    by blast
  show "map fst b = [''status'', ''expires'', ''canAskAgain'']"
    by (simp add: b STATUS_KEY_def EXPIRES_KEY_def CAN_ASK_AGAIN_KEY_def)
  then show "map_of b ''granted'' = None" by (rule keys_no_granted) simp
  have "map_of b ''status'' = Some (StringValue (statusString st))"
    by (simp add: b STATUS_KEY_def)
  then show "\<exists>st. map_of b ''status'' = Some (StringValue (statusString st))"
    by (rule exI)
  show "map_of b ''expires'' = Some (StringValue ''never'')"
    by (simp add: b STATUS_KEY_def EXPIRES_KEY_def PERMISSION_EXPIRES_NEVER_def)
next
  show k: "map fst (snd (permissions infoDictionary videoStatus)) = [''status'', ''expires'']"
    by (rule permissions_keys)
  then show "map_of (snd (permissions infoDictionary videoStatus)) ''granted'' = None"
    by (rule keys_no_granted) simp
  show "\<exists>s. map_of (snd (permissions infoDictionary videoStatus)) ''status'' =
      Some (permissionStringForStatus s)"
    by (rule permissions_status)
  show "map_of (snd (permissions infoDictionary videoStatus)) ''expires'' = Some ''never''"
    by (rule permissions_expires)
next
  assume a: "Resolve resolved \<in>
      set (requestPermissionsWithResolver infoDictionary videoStatus completion)"
  show "(resolved = None \<and> (\<exists>c. completion = Some c \<and> strongSelf c = None)) \<or>
      (\<exists>response. resolved = Some response \<and>
         map fst response = [''status'', ''expires''] \<and>
         map_of response ''granted'' = None \<and>
         (\<exists>s. map_of response ''status'' = Some (permissionStringForStatus s)) \<and>
         map_of response ''expires'' = Some ''never'')"
  proof (cases resolved)
    case None
    with a have "\<exists>c. completion = Some c \<and> strongSelf c = None"
      by (simp add: request_resolved_nil)
    with None show ?thesis by simp
  next
    case (Some response)
    with a have "\<exists>c. completion = Some c \<and>
        response = snd (permissions infoDictionary (statusThen c))"
      by (simp add: request_resolved)
    then obtain c :: completion
      where c: "response = snd (permissions infoDictionary (statusThen c))"
      by blast
    have k: "map fst response = [''status'', ''expires'']"
      unfolding c by (rule permissions_keys)
    then have "map_of response ''granted'' = None" by (rule keys_no_granted) simp
    moreover have "\<exists>s. map_of response ''status'' = Some (permissionStringForStatus s)"
      unfolding c by (rule permissions_status)
    moreover have "map_of response ''expires'' = Some ''never''"
      unfolding c by (rule permissions_expires)
    ultimately show ?thesis using Some k by simp
  qed
qed

theorem responses_carry_status_and_no_granted_field_witness:
  "parseAndroidPermissions [CAMERA] [(CAMERA, \<lparr>status = DENIED, canAskAgain = False\<rparr>)] =
     Inr [(''status'', StringValue ''denied''), (''expires'', StringValue ''never''),
          (''canAskAgain'', BooleanValue False)] \<and>
   map_of [(''status'', StringValue ''denied''), (''expires'', StringValue ''never''),
           (''canAskAgain'', BooleanValue False)] ''granted'' = None \<and>
   map_of (snd (permissions [''NSCameraUsageDescription'' \<mapsto> ''Scan codes'',
                             ''NSMicrophoneUsageDescription'' \<mapsto> ''Record sound'']
                  AVAuthorizationStatusNotDetermined)) ''granted'' = None \<and>
   Resolve (Some [(''status'', ''undetermined''), (''expires'', ''never'')]) \<in>
     set (requestPermissionsWithResolver
            [''NSCameraUsageDescription'' \<mapsto> ''Scan codes'',
             ''NSMicrophoneUsageDescription'' \<mapsto> ''Record sound'']
            AVAuthorizationStatusNotDetermined
            (Some \<lparr>granted = False, statusThen = AVAuthorizationStatusNotDetermined,
                   strongSelf = Some \<lparr>delegate = None\<rparr>\<rparr>)) \<and>
   map_of [(''status'', ''undetermined''), (''expires'', ''never'')] ''granted'' = None \<and>
   Resolve None \<in>
     set (requestPermissionsWithResolver
            [''NSCameraUsageDescription'' \<mapsto> ''Scan codes'',
             ''NSMicrophoneUsageDescription'' \<mapsto> ''Record sound'']
            AVAuthorizationStatusNotDetermined
            (Some \<lparr>granted = False, statusThen = AVAuthorizationStatusNotDetermined,
                   strongSelf = None\<rparr>))"
  using responses_carry_status_and_no_granted_field [where
      permission = "[CAMERA]"
      and permissionsResponse = "[(CAMERA, \<lparr>status = DENIED, canAskAgain = False\<rparr>)]"
      and b = "[(''status'', StringValue ''denied''), (''expires'', StringValue ''never''),
                (''canAskAgain'', BooleanValue False)]"
      and infoDictionary = "[''NSCameraUsageDescription'' \<mapsto> ''Scan codes'',
        ''NSMicrophoneUsageDescription'' \<mapsto> ''Record sound'']"
      and videoStatus = AVAuthorizationStatusNotDetermined
      and completion = "Some \<lparr>granted = False, statusThen = AVAuthorizationStatusNotDetermined,
        strongSelf = Some \<lparr>delegate = None\<rparr>\<rparr>"
      and resolved = "Some [(''status'', ''undetermined''), (''expires'', ''never'')]"]
    responses_carry_status_and_no_granted_field [where
      infoDictionary = "[''NSCameraUsageDescription'' \<mapsto> ''Scan codes'',
        ''NSMicrophoneUsageDescription'' \<mapsto> ''Record sound'']"
      and videoStatus = AVAuthorizationStatusNotDetermined
      and completion = "Some \<lparr>granted = False, statusThen = AVAuthorizationStatusNotDetermined,
        strongSelf = None\<rparr>"
      and resolved = None]
  by (simp add: android_eval ios_eval)

subsection \<open>The access request\<close>



subsection \<open>The delegate\<close>

text \<open>
  Claim C5 says that the completion hook runs exactly once for every request that
  reaches a terminal state. The completion block calls it under \<open>if (self.delegate)\<close>:
  for a requester without a delegate the promise is resolved and no hook runs.
\<close>

theorem request_without_delegate_counterexample:
  "requestPermissionsWithResolver
     [''NSCameraUsageDescription'' \<mapsto> ''Scan codes'',
      ''NSMicrophoneUsageDescription'' \<mapsto> ''Record sound'']
     AVAuthorizationStatusNotDetermined
     (Some \<lparr>granted = True, statusThen = AVAuthorizationStatusAuthorized,
            strongSelf = Some \<lparr>delegate = None\<rparr>\<rparr>) =
   [RequestAccessForMediaType AVMediaTypeVideo,
    AuthorizationStatusForMediaType AVMediaTypeVideo,
    Resolve (Some [(''status'', ''granted''), (''expires'', ''never'')])]"
  by (simp add: ios_eval)

text \<open>
  Claim C5, amended. For every request whose completion block runs on a live requester
  with a delegate attached, \<open>permissionRequesterDidFinish:\<close> is called exactly once, as
  the last effect, directly after \<open>resolve\<close> has received the response, and neither
  call happens earlier. It is never called more than once; it is not called when the
  requester has no delegate, when the requester has been released, or when the
  completion block never runs.
\<close>

theorem delegate_notified_once_when_attached:
  "(strongSelf c = Some self \<and> delegate self = Some d \<longrightarrow>
      (\<exists>before.
         requestPermissionsWithResolver infoDictionary videoStatus (Some c) =
           before @ [Resolve (Some (snd (permissions infoDictionary (statusThen c)))),
                     PermissionRequesterDidFinish d] \<and>
         filter isDidFinish before = [] \<and> filter isResolve before = [])) \<and>
   (strongSelf c = None \<or> (strongSelf c = Some self \<and> delegate self = None) \<longrightarrow>
      filter isDidFinish (requestPermissionsWithResolver infoDictionary videoStatus (Some c)) = []) \<and>
   filter isDidFinish (requestPermissionsWithResolver infoDictionary videoStatus None) = [] \<and>
   length (filter isDidFinish (requestPermissionsWithResolver infoDictionary videoStatus completion)) \<le> 1"
proof (intro conjI impI)
  assume a: "strongSelf c = Some self \<and> delegate self = Some d"
  let ?before = "RequestAccessForMediaType AVMediaTypeVideo #
                 fst (permissions infoDictionary (statusThen c))"
  have "requestPermissionsWithResolver infoDictionary videoStatus (Some c) =
          ?before @ [Resolve (Some (snd (permissions infoDictionary (statusThen c)))),
                     PermissionRequesterDidFinish d]"
    using a by (simp add: requestPermissionsWithResolver_def completionHandler_alive)
  moreover have "filter isDidFinish ?before = [] \<and> filter isResolve ?before = []"
    by (simp add: permissions_effects)
  ultimately show "\<exists>before.
         requestPermissionsWithResolver infoDictionary videoStatus (Some c) =
           before @ [Resolve (Some (snd (permissions infoDictionary (statusThen c)))),
                     PermissionRequesterDidFinish d] \<and>
         filter isDidFinish before = [] \<and> filter isResolve before = []"
    by blast
next
  assume "strongSelf c = None \<or> (strongSelf c = Some self \<and> delegate self = None)"
  then show "filter isDidFinish (requestPermissionsWithResolver infoDictionary videoStatus (Some c)) = []"
    by (auto simp: requestPermissionsWithResolver_def completionHandler_did_finish)
next
  show "filter isDidFinish (requestPermissionsWithResolver infoDictionary videoStatus None) = []"
    by (simp add: requestPermissionsWithResolver_def)
next
  show "length (filter isDidFinish (requestPermissionsWithResolver infoDictionary videoStatus completion)) \<le> 1"
    by (simp add: requestPermissionsWithResolver_def completionHandler_did_finish
        split: option.splits)
qed

theorem delegate_notified_once_when_attached_witness:
  "requestPermissionsWithResolver
     [''NSCameraUsageDescription'' \<mapsto> ''Scan codes'',
      ''NSMicrophoneUsageDescription'' \<mapsto> ''Record sound'']
     AVAuthorizationStatusNotDetermined
     (Some \<lparr>granted = False, statusThen = AVAuthorizationStatusDenied,
            strongSelf = Some \<lparr>delegate = Some 7\<rparr>\<rparr>) =
   [RequestAccessForMediaType AVMediaTypeVideo,
    AuthorizationStatusForMediaType AVMediaTypeVideo,
    Resolve (Some [(''status'', ''denied''), (''expires'', ''never'')]),
    PermissionRequesterDidFinish 7] \<and>
   requestPermissionsWithResolver
     [''NSCameraUsageDescription'' \<mapsto> ''Scan codes'',
      ''NSMicrophoneUsageDescription'' \<mapsto> ''Record sound'']
     AVAuthorizationStatusNotDetermined
     (Some \<lparr>granted = False, statusThen = AVAuthorizationStatusDenied,
            strongSelf = None\<rparr>) =
   [RequestAccessForMediaType AVMediaTypeVideo, Resolve None]"
  using delegate_notified_once_when_attached [where
      c = "\<lparr>granted = False, statusThen = AVAuthorizationStatusDenied,
        strongSelf = Some \<lparr>delegate = Some 7\<rparr>\<rparr>"
      and self = "\<lparr>delegate = Some 7\<rparr>" and d = 7
      and infoDictionary = "[''NSCameraUsageDescription'' \<mapsto> ''Scan codes'',
        ''NSMicrophoneUsageDescription'' \<mapsto> ''Record sound'']"
      and videoStatus = AVAuthorizationStatusNotDetermined]
    delegate_notified_once_when_attached [where
      c = "\<lparr>granted = False, statusThen = AVAuthorizationStatusDenied, strongSelf = None\<rparr>"
      and infoDictionary = "[''NSCameraUsageDescription'' \<mapsto> ''Scan codes'',
        ''NSMicrophoneUsageDescription'' \<mapsto> ''Record sound'']"
      and videoStatus = AVAuthorizationStatusNotDetermined]
  by (simp add: ios_eval)

section \<open>Properties of \<open>onObjectDetected\<close>\<close>





end
